theory Spec2Isabelle
  imports Main "HOL-Library.Monad_Syntax" "HOL-Library.Sublist"
begin

section \<open>The persistent red-black tree of \<^verbatim>\<open>tree/tree.go\<close>\<close>

text \<open>
  The Go package \<^verbatim>\<open>tree\<close> is embedded function by function.

  \<^item> \<^verbatim>\<open>*node[T]\<close> is the datatype \<open>'a node\<close>; the nil pointer is the constructor \<open>nil\<close>.
  \<^item> \<^verbatim>\<open>*RedBlackTree[T]\<close> is the datatype \<open>'a RedBlackTree\<close>; the nil pointer is \<open>NilTree\<close>.
  \<^item> \<^verbatim>\<open>Compare[T]\<close> is a function \<open>'a \<Rightarrow> 'a \<Rightarrow> int\<close>. The code only tests its result
    against \<open>0\<close> and \<open>-1\<close>, so the width of Go's \<^verbatim>\<open>int\<close> plays no role.
  \<^item> A run-time panic (the only one this code can raise is a nil pointer dereference) is
    the result \<open>None\<close>; a normal return of \<open>v\<close> is \<open>Some v\<close>.
\<close>

subsection \<open>Nodes\<close>

datatype color = red | black

datatype 'a node =
    nil
  | Node (item: 'a) (c: color) (left: "'a node") (right: "'a node")

datatype 'a RedBlackTree =
    NilTree
  | RedBlackTree (compare: "'a \<Rightarrow> 'a \<Rightarrow> int") (root: "'a node")

text \<open>The three \<^verbatim>\<open>copyWith...\<close> methods have value receivers: calling them through a nil
  pointer dereferences it.\<close>

fun copyWithEntry :: "'a node \<Rightarrow> 'a \<Rightarrow> 'a node option" where
  "copyWithEntry nil x = None"
| "copyWithEntry (Node y k l r) x = Some (Node x k l r)"

fun copyWithLeft :: "'a node \<Rightarrow> 'a node \<Rightarrow> 'a node option" where
  "copyWithLeft nil l' = None"
| "copyWithLeft (Node y k l r) l' = Some (Node y k l' r)"

fun copyWithRight :: "'a node \<Rightarrow> 'a node \<Rightarrow> 'a node option" where
  "copyWithRight nil r' = None"
| "copyWithRight (Node y k l r) r' = Some (Node y k l r')"

text \<open>\<^verbatim>\<open>copyWithColor\<close> has a pointer receiver and reads \<^verbatim>\<open>n.c\<close> first.\<close>

fun copyWithColor :: "'a node \<Rightarrow> color \<Rightarrow> 'a node option" where
  "copyWithColor nil k' = None"
| "copyWithColor (Node y k l r) k' =
     (if k = k' then Some (Node y k l r) else Some (Node y k' l r))"

definition newNode :: "'a \<Rightarrow> 'a node" where
  "newNode x = Node x red nil nil"

subsection \<open>Rebalancing\<close>

text \<open>\<^verbatim>\<open>balance\<close> accepts a nil receiver. Its four tests are tried in the order of the
  source: left-right (``top''), left-left, right-right, right-left (``bottom'').
  In the left-left and right-right cases the red grandchild is recoloured by
  \<^verbatim>\<open>copyWithColor(black)\<close>.\<close>

fun balance :: "'a node \<Rightarrow> 'a node" where
  "balance nil = nil"
| "balance (Node z red l r) = Node z red l r"
| "balance (Node z black (Node x red a (Node y red b c')) d) =
     Node y red (Node x black a b) (Node z black c' d)"
| "balance (Node z black (Node y red (Node x red a b) c') d) =
     Node y red (Node x black a b) (Node z black c' d)"
| "balance (Node x black a (Node y red b (Node z red c' d))) =
     Node y red (Node x black a b) (Node z black c' d)"
| "balance (Node x black a (Node z red (Node y red b c') d)) =
     Node y red (Node x black a b) (Node z black c' d)"
| "balance (Node z black l r) = Node z black l r"

lemma size_balance [simp]: "size (balance n) = size n"
  by (induction n rule: balance.induct) simp_all

lemma balance_eq_Nil [simp]: "balance n = nil \<longleftrightarrow> n = nil"
  by (induction n rule: balance.induct) simp_all

subsection \<open>The merge routines\<close>

text \<open>\<^verbatim>\<open>upsert\<close> merges the tree \<open>inserting\<close> into \<open>n\<close>. With a nil \<open>inserting\<close> it returns the
  receiver untouched; otherwise it reads \<^verbatim>\<open>n.item\<close>, which panics on a nil receiver.\<close>

function upsert :: "('a \<Rightarrow> 'a \<Rightarrow> int) \<Rightarrow> 'a node \<Rightarrow> 'a node \<Rightarrow> 'a node option" where
  "upsert cf n nil = Some n"
| "upsert cf nil (Node x k l r) = None"
| "upsert cf (Node y kn ln rn) (Node x k l r) =
     (let cmp = cf x y in
      if cmp = 0 then do {
        n1 \<leftarrow> copyWithEntry (Node y kn ln rn) x;
        n2 \<leftarrow> upsert cf n1 r;
        n3 \<leftarrow> upsert cf (balance n2) l;
        Some (balance n3)
      } else if cmp = -1 then
        (if ln = nil then do {
           n1 \<leftarrow> copyWithLeft (Node y kn ln rn) (Node x k l r);
           Some (balance n1)
         } else do {
           t \<leftarrow> copyWithRight (Node x k l r) nil;
           l' \<leftarrow> upsert cf ln (balance t);
           n1 \<leftarrow> copyWithLeft (Node y kn ln rn) l';
           upsert cf (balance n1) r
         })
      else
        (if rn = nil then do {
           n1 \<leftarrow> copyWithRight (Node y kn ln rn) (Node x k l r);
           Some (balance n1)
         } else do {
           t \<leftarrow> copyWithLeft (Node x k l r) nil;
           r' \<leftarrow> upsert cf rn (balance t);
           n1 \<leftarrow> copyWithRight (Node y kn ln rn) r';
           upsert cf (balance n1) l
         }))"
  by pat_completeness auto

lemma upsert_total: "All (upsert_dom :: (('a \<Rightarrow> 'a \<Rightarrow> int) \<times> 'a node \<times> 'a node) \<Rightarrow> bool)"
  by (relation "inv_image (less_than <*lex*> less_than) (\<lambda>(cf, n, i). (size i, size n))")
     auto

termination upsert
  by (rule upsert_total)

text \<open>\<^verbatim>\<open>combinedChildren\<close> joins the two children of a node that is being removed.\<close>

fun combinedChildren :: "('a \<Rightarrow> 'a \<Rightarrow> int) \<Rightarrow> 'a node \<Rightarrow> 'a node option" where
  "combinedChildren cf nil = None"
| "combinedChildren cf (Node y k l r) = (if l = nil then Some r else upsert cf l r)"

text \<open>\<^verbatim>\<open>intersection\<close> checks both pointers for nil before it reads anything.\<close>

function intersection :: "('a \<Rightarrow> 'a \<Rightarrow> int) \<Rightarrow> 'a node \<Rightarrow> 'a node \<Rightarrow> 'a node option" where
  "intersection cf nil i = Some nil"
| "intersection cf (Node y kn ln rn) nil = Some nil"
| "intersection cf (Node y kn ln rn) (Node x k l r) =
     (let cmp = cf x y in
      if cmp = 0 then do {
        ri \<leftarrow> intersection cf rn r;
        let rightIntersection = balance ri;
        li \<leftarrow> intersection cf ln l;
        let leftIntersection = balance li;
        n1 \<leftarrow> copyWithRight (Node y kn ln rn) rightIntersection;
        n2 \<leftarrow> copyWithLeft (balance n1) leftIntersection;
        Some (balance n2)
      } else if cmp = -1 then do {
        t \<leftarrow> copyWithRight (Node x k l r) nil;
        leftIntersect \<leftarrow> intersection cf ln (balance t);
        if leftIntersect = nil then intersection cf (Node y kn ln rn) r
        else do {
          rest \<leftarrow> intersection cf (Node y kn ln rn) r;
          n1 \<leftarrow> copyWithRight leftIntersect rest;
          Some (balance n1)
        }
      } else do {
        t \<leftarrow> copyWithLeft (Node x k l r) nil;
        rightIntersect \<leftarrow> intersection cf rn (balance t);
        if rightIntersect = nil then intersection cf (Node y kn ln rn) l
        else do {
          rest \<leftarrow> intersection cf (Node y kn ln rn) l;
          n1 \<leftarrow> copyWithLeft rightIntersect rest;
          Some (balance n1)
        }
      })"
  by pat_completeness auto

lemma intersection_total:
  "All (intersection_dom :: (('a \<Rightarrow> 'a \<Rightarrow> int) \<times> 'a node \<times> 'a node) \<Rightarrow> bool)"
  by (relation "inv_image (less_than <*lex*> less_than) (\<lambda>(cf, n, i). (size i, size n))")
     auto

termination intersection
  by (rule intersection_total)

text \<open>\<^verbatim>\<open>subtract\<close> returns the receiver (nil or not) when \<open>subtracting\<close> is nil; otherwise
  it reads \<^verbatim>\<open>n.item\<close>, which panics on a nil receiver.\<close>

function subtract :: "('a \<Rightarrow> 'a \<Rightarrow> int) \<Rightarrow> 'a node \<Rightarrow> 'a node \<Rightarrow> 'a node option" where
  "subtract cf n nil = Some n"
| "subtract cf nil (Node x k l r) = None"
| "subtract cf (Node y kn ln rn) (Node x k l r) =
     (let cmp = cf x y in
      if cmp = 0 then do {
        n1 \<leftarrow> combinedChildren cf (Node y kn ln rn);
        n2 \<leftarrow> subtract cf n1 r;
        subtract cf n2 l
      } else if cmp = -1 then
        (if ln = nil then Some (Node y kn ln rn)
         else do {
           t \<leftarrow> copyWithRight (Node x k l r) nil;
           l' \<leftarrow> subtract cf ln (balance t);
           n1 \<leftarrow> copyWithLeft (Node y kn ln rn) l';
           subtract cf (balance n1) r
         })
      else
        (if rn = nil then Some (Node y kn ln rn)
         else do {
           t \<leftarrow> copyWithLeft (Node x k l r) nil;
           r' \<leftarrow> subtract cf rn (balance t);
           n1 \<leftarrow> copyWithRight (Node y kn ln rn) r';
           subtract cf (balance n1) l
         }))"
  by pat_completeness auto

lemma subtract_total:
  "All (subtract_dom :: (('a \<Rightarrow> 'a \<Rightarrow> int) \<times> 'a node \<times> 'a node) \<Rightarrow> bool)"
  by (relation "inv_image (less_than <*lex*> less_than) (\<lambda>(cf, n, i). (size i, size n))")
     auto

termination subtract
  by (rule subtract_total)

subsection \<open>The public operations\<close>

text \<open>Every method reads \<^verbatim>\<open>r.root\<close> first, so a nil tree pointer as receiver panics.
  \<^verbatim>\<open>Subtract\<close>, \<^verbatim>\<open>Union\<close> and \<^verbatim>\<open>Intersection\<close> read \<^verbatim>\<open>other.root\<close> only when the receiver's
  root is not nil. \<^verbatim>\<open>Union\<close> is written \<open>Union'\<close>, since \<open>Union\<close> is HOL's union of a set of
  sets.\<close>

definition NewRedBlack :: "('a \<Rightarrow> 'a \<Rightarrow> int) \<Rightarrow> 'a RedBlackTree" where
  "NewRedBlack compareFn = RedBlackTree compareFn nil"

fun Upsert :: "'a RedBlackTree \<Rightarrow> 'a \<Rightarrow> 'a RedBlackTree option" where
  "Upsert NilTree x = None"
| "Upsert (RedBlackTree cf nil) x = Some (RedBlackTree cf (Node x black nil nil))"
| "Upsert (RedBlackTree cf rt) x = do {
     n \<leftarrow> upsert cf rt (newNode x);
     n' \<leftarrow> copyWithColor n black;
     Some (RedBlackTree cf n')
   }"

fun Delete :: "'a RedBlackTree \<Rightarrow> 'a \<Rightarrow> 'a RedBlackTree option" where
  "Delete NilTree x = None"
| "Delete (RedBlackTree cf nil) x = Some (RedBlackTree cf nil)"
| "Delete (RedBlackTree cf rt) x = do {
     n \<leftarrow> subtract cf rt (newNode x);
     n' \<leftarrow> copyWithColor n black;
     Some (RedBlackTree cf n')
   }"

fun Subtract :: "'a RedBlackTree \<Rightarrow> 'a RedBlackTree \<Rightarrow> 'a RedBlackTree option" where
  "Subtract NilTree other = None"
| "Subtract (RedBlackTree cf nil) other = Some (RedBlackTree cf nil)"
| "Subtract (RedBlackTree cf rt) NilTree = None"
| "Subtract (RedBlackTree cf rt) (RedBlackTree cf' rt') = do {
     n \<leftarrow> subtract cf rt rt';
     n' \<leftarrow> copyWithColor n black;
     Some (RedBlackTree cf n')
   }"

fun Union' :: "'a RedBlackTree \<Rightarrow> 'a RedBlackTree \<Rightarrow> 'a RedBlackTree option" where
  "Union' NilTree other = None"
| "Union' (RedBlackTree cf nil) other = Some other"
| "Union' (RedBlackTree cf rt) NilTree = None"
| "Union' (RedBlackTree cf rt) (RedBlackTree cf' rt') = do {
     n \<leftarrow> upsert cf rt rt';
     n' \<leftarrow> copyWithColor n black;
     Some (RedBlackTree cf n')
   }"

fun Intersection :: "'a RedBlackTree \<Rightarrow> 'a RedBlackTree \<Rightarrow> 'a RedBlackTree option" where
  "Intersection NilTree other = None"
| "Intersection (RedBlackTree cf nil) other = Some NilTree"
| "Intersection (RedBlackTree cf rt) NilTree = None"
| "Intersection (RedBlackTree cf rt) (RedBlackTree cf' rt') = do {
     n \<leftarrow> intersection cf rt rt';
     n' \<leftarrow> copyWithColor n black;
     Some (RedBlackTree cf n')
   }"

subsection \<open>The iterator\<close>

text \<open>\<^verbatim>\<open>nodeIterator\<close> is mutated by \<^verbatim>\<open>Next\<close>; the model passes the state explicitly.
  The slice \<^verbatim>\<open>unprocStack\<close> is a list whose last element is the top of the stack.\<close>

record 'a nodeIterator =
  unprocStack :: "'a node list"
  current :: "'a node"

text \<open>The loop of \<^verbatim>\<open>Iterator\<close>: walk down the left spine, pushing the nodes passed.\<close>

fun Iterator_loop :: "'a node \<Rightarrow> 'a node list \<Rightarrow> 'a nodeIterator option" where
  "Iterator_loop nil stack = None"
| "Iterator_loop (Node y k l r) stack =
     (if l = nil then Some \<lparr>unprocStack = stack, current = Node y k l r\<rparr>
      else Iterator_loop l (stack @ [Node y k l r]))"

fun Iterator :: "'a RedBlackTree \<Rightarrow> 'a nodeIterator option" where
  "Iterator NilTree = None"
| "Iterator (RedBlackTree cf nil) = Some \<lparr>unprocStack = [], current = nil\<rparr>"
| "Iterator (RedBlackTree cf rt) = Iterator_loop rt []"

text \<open>\<^verbatim>\<open>Elem\<close> returns the zero value of \<open>T\<close> when there is no current node; the zero value is
  a parameter of the model, since it depends on the instantiation of \<open>T\<close>.\<close>

definition Elem :: "'a \<Rightarrow> 'a nodeIterator \<Rightarrow> 'a" where
  "Elem zeroVal it = (case current it of nil \<Rightarrow> zeroVal | Node x k l r \<Rightarrow> x)"

definition HasElem :: "'a nodeIterator \<Rightarrow> bool" where
  "HasElem it = (current it \<noteq> nil)"

text \<open>The loop of \<^verbatim>\<open>Next\<close>: push the cursor and walk to its left child until nil.\<close>

fun Next_loop :: "'a node \<Rightarrow> 'a node list \<Rightarrow> 'a node list" where
  "Next_loop nil stack = stack"
| "Next_loop (Node y k l r) stack = Next_loop l (stack @ [Node y k l r])"

definition Next :: "'a nodeIterator \<Rightarrow> 'a nodeIterator" where
  "Next it =
     (case current it of
        nil \<Rightarrow> it
      | Node y k l r \<Rightarrow>
          (let stack = Next_loop r (unprocStack it) in
           if length stack \<ge> 1
           then \<lparr>unprocStack = butlast stack, current = last stack\<rparr>
           else \<lparr>unprocStack = stack, current = nil\<rparr>))"

text \<open>The measure that decreases with every \<^verbatim>\<open>Next\<close>: the nodes still to be delivered.\<close>

fun weight :: "'a node \<Rightarrow> nat" where
  "weight nil = 0"
| "weight (Node y k l r) = Suc (size r)"

definition pending :: "'a nodeIterator \<Rightarrow> nat" where
  "pending it = weight (current it) + sum_list (map weight (unprocStack it))"

lemma weight_Next_loop:
  "sum_list (map weight (Next_loop t stack)) = sum_list (map weight stack) + size t"
  by (induction t stack rule: Next_loop.induct) simp_all

lemma weight_pop:
  "stack \<noteq> [] \<Longrightarrow> weight (last stack) + sum_list (map weight (butlast stack)) = sum_list (map weight stack)"
  by (induction stack rule: rev_induct) simp_all

lemma pending_Next: "HasElem it \<Longrightarrow> pending (Next it) < pending it"
proof -
  assume h: "HasElem it"
  then obtain y k l r where cur: "current it = Node y k l r"
    by (cases "current it") (simp_all add: HasElem_def)
  let ?s = "Next_loop r (unprocStack it)"
  show ?thesis
  proof (cases "?s = []")
    case True
    then show ?thesis
      by (simp add: Next_def pending_def cur)
  next
    case False
    then have "1 \<le> length ?s"
      by (cases ?s) simp_all
    moreover have "weight (last ?s) + sum_list (map weight (butlast ?s))
        = sum_list (map weight (unprocStack it)) + size r"
      using weight_pop [OF False] by (simp add: weight_Next_loop)
    ultimately show ?thesis
      by (simp add: Next_def pending_def cur Let_def)
  qed
qed

text \<open>The loop of the doc comment of \<^verbatim>\<open>Iterator\<close>,
  \<^verbatim>\<open>for it := v.Iterator(); it.HasElem(); it.Next() { elem := it.Elem() ... }\<close>,
  collecting the elements it reads.\<close>

function elements :: "'a \<Rightarrow> 'a nodeIterator \<Rightarrow> 'a list" where
  "elements zeroVal it =
     (if HasElem it then Elem zeroVal it # elements zeroVal (Next it) else [])"
  by pat_completeness auto

lemma elements_total: "All (elements_dom :: ('a \<times> 'a nodeIterator) \<Rightarrow> bool)"
  by (relation "measure (\<lambda>(zeroVal, it). pending it)") (simp_all add: pending_Next)

termination elements
  by (rule elements_total)

declare elements.simps [simp del]

text \<open>Iterating a tree: obtain the iterator, then run the loop.\<close>

definition iterate :: "'a \<Rightarrow> 'a RedBlackTree \<Rightarrow> 'a list option" where
  "iterate zeroVal t = map_option (elements zeroVal) (Iterator t)"

subsection \<open>The invariants and the caller's side\<close>

text \<open>Modelled from the spec: \<^verbatim>\<open>ValidateInvariants\<close> is called by \<^verbatim>\<open>example.go\<close> but its
  source is not part of the files at hand. The three invariants are those of section 3 of
  the specification, which the comment above \<^verbatim>\<open>NewRedBlack\<close> in \<^verbatim>\<open>tree.go\<close> repeats:
  no red node has a red child; every path from the root to an empty node contains the
  same number of black nodes; the in-order sequence is strictly increasing.\<close>

fun inorder :: "'a node \<Rightarrow> 'a list" where
  "inorder nil = []"
| "inorder (Node x k l r) = inorder l @ x # inorder r"

fun isRedNode :: "'a node \<Rightarrow> bool" where
  "isRedNode nil = False"
| "isRedNode (Node x k l r) = (k = red)"

fun noRedRed :: "'a node \<Rightarrow> bool" where
  "noRedRed nil = True"
| "noRedRed (Node x red l r) =
     (\<not> isRedNode l \<and> \<not> isRedNode r \<and> noRedRed l \<and> noRedRed r)"
| "noRedRed (Node x black l r) = (noRedRed l \<and> noRedRed r)"

text \<open>The number of black nodes on each path from the node to an empty child, path by path
  from left to right.\<close>

fun blackCounts :: "'a node \<Rightarrow> nat list" where
  "blackCounts nil = [0]"
| "blackCounts (Node x k l r) =
     map (\<lambda>b. (if k = black then 1 else 0) + b) (blackCounts l @ blackCounts r)"

text \<open>Every path has the count of the leftmost path.\<close>

definition sameBlackCount :: "'a node \<Rightarrow> bool" where
  "sameBlackCount n = list_all (\<lambda>b. b = hd (blackCounts n)) (blackCounts n)"

definition strictlyIncreasing :: "('a \<Rightarrow> 'a \<Rightarrow> int) \<Rightarrow> 'a list \<Rightarrow> bool" where
  "strictlyIncreasing cf xs = sorted_wrt (\<lambda>a b. cf a b < 0) xs"

definition redBlackInvariants :: "'a RedBlackTree \<Rightarrow> bool" where
  "redBlackInvariants t =
     (case t of
        NilTree \<Rightarrow> False
      | RedBlackTree cf rt \<Rightarrow>
          noRedRed rt \<and> sameBlackCount rt \<and> strictlyIncreasing cf (inorder rt))"

text \<open>The comparator of \<^verbatim>\<open>example.go\<close>.\<close>

definition compare_int :: "int \<Rightarrow> int \<Rightarrow> int" where
  "compare_int a b = (if a < b then -1 else if a = b then 0 else 1)"

text \<open>A caller's sequence of single-item operations, stopping at the first panic.\<close>

datatype 'a operation = DoUpsert 'a | DoDelete 'a

fun apply_operation :: "'a RedBlackTree \<Rightarrow> 'a operation \<Rightarrow> 'a RedBlackTree option" where
  "apply_operation t (DoUpsert x) = Upsert t x"
| "apply_operation t (DoDelete x) = Delete t x"

fun apply_operations :: "'a RedBlackTree \<Rightarrow> 'a operation list \<Rightarrow> 'a RedBlackTree option" where
  "apply_operations t [] = Some t"
| "apply_operations t (x # xs) = do { t' \<leftarrow> apply_operation t x; apply_operations t' xs }"

text \<open>A tree built as \<^verbatim>\<open>example.go\<close> builds its trees: upsert the items one by one into
  a new tree.\<close>

definition build :: "('a \<Rightarrow> 'a \<Rightarrow> int) \<Rightarrow> 'a list \<Rightarrow> 'a RedBlackTree option" where
  "build cf xs = apply_operations (NewRedBlack cf) (map DoUpsert xs)"

subsection \<open>Node identity\<close>

text \<open>Whether two subtrees are the same node, and not only equal, needs addresses and a
  store. The store is the list of the cells allocated so far: the cell at address \<open>a\<close> is
  \<open>s ! a\<close>, the next free address is \<open>length s\<close>, and a cell holds the four fields of
  \<^verbatim>\<open>node[T]\<close>, the two pointers as addresses (\<open>None\<close> for nil).

  No function of \<^verbatim>\<open>tree.go\<close> assigns through a pointer: the \<^verbatim>\<open>copyWith...\<close> methods that assign
  a field have value receivers, so they write to a private copy and return its address,
  and every other node is built by a composite literal. Allocation, which appends a cell,
  is therefore the only operation on the store. Since a cell never changes, a pointer is
  modelled by its address together with the contents found there: \<open>At a x k l r\<close> is the
  pointer to the cell at address \<open>a\<close>, which holds item \<open>x\<close>, colour \<open>k\<close> and the pointers
  \<open>l\<close> and \<open>r\<close>; \<open>null\<close> is the nil pointer. The predicate \<open>stored\<close> below says that the
  store holds, at the addresses of a pointer structure, just these contents.\<close>

datatype 'a ptr =
    null
  | At (address: nat) 'a color "'a ptr" "'a ptr"

datatype 'a cell = Cell 'a color "nat option" "nat option"

type_synonym 'a store = "'a cell list"

text \<open>The address a pointer field holds.\<close>

fun addressOf :: "'a ptr \<Rightarrow> nat option" where
  "addressOf null = None"
| "addressOf (At a x k l r) = Some a"

text \<open>Allocation: the new cell goes to the next free address.\<close>

definition alloc :: "'a \<Rightarrow> color \<Rightarrow> 'a ptr \<Rightarrow> 'a ptr \<Rightarrow> 'a store \<Rightarrow> 'a ptr \<times> 'a store" where
  "alloc x k l r h = (At (length h) x k l r, h @ [Cell x k (addressOf l) (addressOf r)])"


text \<open>The functions below are \<^verbatim>\<open>Upsert\<close> and what it calls, once more, with their
  allocations: each takes the store and returns the new store with its result. Arguments
  are evaluated before the call that uses them, as in Go. The \<^verbatim>\<open>copyWith...\<close> methods with
  value receivers always allocate; \<^verbatim>\<open>copyWithColor\<close> allocates only when the colour changes.\<close>

fun copyWithEntryP :: "'a ptr \<Rightarrow> 'a \<Rightarrow> 'a store \<Rightarrow> ('a ptr \<times> 'a store) option" where
  "copyWithEntryP null x h = None"
| "copyWithEntryP (At a y k l r) x h = Some (alloc x k l r h)"

fun copyWithLeftP :: "'a ptr \<Rightarrow> 'a ptr \<Rightarrow> 'a store \<Rightarrow> ('a ptr \<times> 'a store) option" where
  "copyWithLeftP null l' h = None"
| "copyWithLeftP (At a y k l r) l' h = Some (alloc y k l' r h)"

fun copyWithRightP :: "'a ptr \<Rightarrow> 'a ptr \<Rightarrow> 'a store \<Rightarrow> ('a ptr \<times> 'a store) option" where
  "copyWithRightP null r' h = None"
| "copyWithRightP (At a y k l r) r' h = Some (alloc y k l r' h)"

fun copyWithColorP :: "'a ptr \<Rightarrow> color \<Rightarrow> 'a store \<Rightarrow> ('a ptr \<times> 'a store) option" where
  "copyWithColorP null k' h = None"
| "copyWithColorP (At a y k l r) k' h =
     (if k = k' then Some (At a y k l r, h) else Some (alloc y k' l r h))"

definition newNodeP :: "'a \<Rightarrow> 'a store \<Rightarrow> 'a ptr \<times> 'a store" where
  "newNodeP x h = alloc x red null null h"

text \<open>\<^verbatim>\<open>balance\<close> returns its receiver when it is nil or red or shows none of the four
  patterns. Otherwise it allocates three nodes: the two black children (in the left-left
  and right-right cases one of them is the copy that \<^verbatim>\<open>copyWithColor(black)\<close> makes of the
  red grandchild) and then the red root.\<close>

fun balanceP :: "'a ptr \<Rightarrow> 'a store \<Rightarrow> 'a ptr \<times> 'a store" where
  "balanceP null h = (null, h)"
| "balanceP (At p z red l r) h = (At p z red l r, h)"
| "balanceP (At p z black (At q x red a (At s y red b c')) d) h =
     (let (l', h1) = alloc x black a b h;
          (r', h2) = alloc z black c' d h1
      in alloc y red l' r' h2)"
| "balanceP (At p z black (At q y red (At s x red a b) c') d) h =
     (let (l', h1) = alloc x black a b h;
          (r', h2) = alloc z black c' d h1
      in alloc y red l' r' h2)"
| "balanceP (At p x black a (At q y red b (At s z red c' d))) h =
     (let (l', h1) = alloc x black a b h;
          (r', h2) = alloc z black c' d h1
      in alloc y red l' r' h2)"
| "balanceP (At p x black a (At q z red (At s y red b c') d)) h =
     (let (l', h1) = alloc x black a b h;
          (r', h2) = alloc z black c' d h1
      in alloc y red l' r' h2)"
| "balanceP (At p z black l r) h = (At p z black l r, h)"

lemma size_balanceP [simp]: "size (fst (balanceP n h)) = size n"
  by (induction n h rule: balanceP.induct) (simp_all add: alloc_def)

function upsertP :: "('a \<Rightarrow> 'a \<Rightarrow> int) \<Rightarrow> 'a ptr \<Rightarrow> 'a ptr \<Rightarrow> 'a store \<Rightarrow> ('a ptr \<times> 'a store) option" where
  "upsertP cf n null h = Some (n, h)"
| "upsertP cf null (At a x k l r) h = None"
| "upsertP cf (At b y kn ln rn) (At a x k l r) h =
     (let cmp = cf x y in
      if cmp = 0 then do {
        (n1, h1) \<leftarrow> copyWithEntryP (At b y kn ln rn) x h;
        (n2, h2) \<leftarrow> upsertP cf n1 r h1;
        (n3, h3) \<leftarrow> Some (balanceP n2 h2);
        (n4, h4) \<leftarrow> upsertP cf n3 l h3;
        Some (balanceP n4 h4)
      } else if cmp = -1 then
        (if ln = null then do {
           (n1, h1) \<leftarrow> copyWithLeftP (At b y kn ln rn) (At a x k l r) h;
           Some (balanceP n1 h1)
         } else do {
           (t, h1) \<leftarrow> copyWithRightP (At a x k l r) null h;
           (t', h2) \<leftarrow> Some (balanceP t h1);
           (l', h3) \<leftarrow> upsertP cf ln t' h2;
           (n1, h4) \<leftarrow> copyWithLeftP (At b y kn ln rn) l' h3;
           (n2, h5) \<leftarrow> Some (balanceP n1 h4);
           upsertP cf n2 r h5
         })
      else
        (if rn = null then do {
           (n1, h1) \<leftarrow> copyWithRightP (At b y kn ln rn) (At a x k l r) h;
           Some (balanceP n1 h1)
         } else do {
           (t, h1) \<leftarrow> copyWithLeftP (At a x k l r) null h;
           (t', h2) \<leftarrow> Some (balanceP t h1);
           (r', h3) \<leftarrow> upsertP cf rn t' h2;
           (n1, h4) \<leftarrow> copyWithRightP (At b y kn ln rn) r' h3;
           (n2, h5) \<leftarrow> Some (balanceP n1 h4);
           upsertP cf n2 l h5
         }))"
  by pat_completeness auto

lemma size_balanceP_eq: "balanceP n h = (n', h') \<Longrightarrow> size n' = size n"
  using size_balanceP [of n h] by simp

lemma upsertP_total:
  "All (upsertP_dom :: (('a \<Rightarrow> 'a \<Rightarrow> int) \<times> 'a ptr \<times> 'a ptr \<times> 'a store) \<Rightarrow> bool)"
  by (relation "inv_image (less_than <*lex*> less_than) (\<lambda>(cf, n, i, h). (size i, size n))")
     (auto simp: alloc_def dest!: size_balanceP_eq)

termination upsertP
  by (rule upsertP_total)

text \<open>\<^verbatim>\<open>Upsert\<close> on the tree with comparator \<open>cf\<close> and root \<open>rt\<close>, returning the root of the new
  tree (the \<^verbatim>\<open>RedBlackTree\<close> structs themselves play no role in the sharing of nodes).\<close>

fun UpsertP :: "('a \<Rightarrow> 'a \<Rightarrow> int) \<Rightarrow> 'a ptr \<Rightarrow> 'a \<Rightarrow> 'a store \<Rightarrow> ('a ptr \<times> 'a store) option" where
  "UpsertP cf null x h = Some (alloc x black null null h)"
| "UpsertP cf (At b y kn ln rn) x h = do {
     (i, h1) \<leftarrow> Some (newNodeP x h);
     (n, h2) \<leftarrow> upsertP cf (At b y kn ln rn) i h1;
     (n', h3) \<leftarrow> copyWithColorP n black h2;
     Some (n', h3)
   }"

text \<open>Forgetting the addresses gives the node of the first model.\<close>

fun erase :: "'a ptr \<Rightarrow> 'a node" where
  "erase null = nil"
| "erase (At a x k l r) = Node x k (erase l) (erase r)"



subsection \<open>Auxiliary definitions for the proofs\<close>

text \<open>What a node on the stack, or the current node, still has to deliver: its own item and
  then its right subtree.\<close>

fun contrib :: "'a node \<Rightarrow> 'a list" where
  "contrib nil = []"
| "contrib (Node x k l r) = x # inorder r"

definition rest :: "'a node list \<Rightarrow> 'a list" where
  "rest stack = concat (map contrib (rev stack))"

text \<open>The merge routines look at a comparison result only through the two tests
  \<^verbatim>\<open>cmp == 0\<close> and \<^verbatim>\<open>cmp == -1\<close>.\<close>

definition sameDecisions :: "('a \<Rightarrow> 'a \<Rightarrow> int) \<Rightarrow> ('a \<Rightarrow> 'a \<Rightarrow> int) \<Rightarrow> bool" where
  "sameDecisions cf cf' =
     (\<forall>a b. (cf a b = 0 \<longleftrightarrow> cf' a b = 0) \<and> (cf a b = -1 \<longleftrightarrow> cf' a b = -1))"

text \<open>The comparator as the merge routines read it: 0 is ``equal'', -1 is ``less'' and every
  other result, positive or negative, is ``greater''.\<close>

definition canonical :: "('a \<Rightarrow> 'a \<Rightarrow> int) \<Rightarrow> 'a \<Rightarrow> 'a \<Rightarrow> int" where
  "canonical cf a b = (if cf a b = 0 then 0 else if cf a b = -1 then -1 else 1)"

text \<open>For the sharing proof: \<open>fresh h0\<close> and \<open>rootFresh h0\<close> say that a node was allocated at
  or after address \<open>h0\<close>; \<open>redRed\<close> that a node is red and has a red child; \<open>quiet\<close> that
  \<^verbatim>\<open>balance\<close> finds none of its four patterns; \<open>redChain\<close> and \<open>freshTop\<close> that the nodes
  \<^verbatim>\<open>balance\<close> would rebuild are new ones; \<open>almost\<close> and \<open>repairable\<close> are the shapes before
  rebalancing of Okasaki's insertion; \<open>post\<close> collects what \<^verbatim>\<open>upsert\<close> of a single new
  node guarantees.\<close>

fun isRedP :: "'a ptr \<Rightarrow> bool" where
  "isRedP null = False"
| "isRedP (At a x k l r) = (k = red)"











section \<open>Properties\<close>

subsection \<open>Auxiliary facts about the iterator\<close>

lemma rest_simps [simp]: "rest [] = []" "rest (s @ [m]) = contrib m @ rest s"
  by (simp_all add: rest_def)

lemma rest_Next_loop: "rest (Next_loop t stack) = inorder t @ rest stack"
  by (induction t stack rule: Next_loop.induct) simp_all

lemma Next_loop_not_nil:
  "\<forall>m \<in> set stack. m \<noteq> nil \<Longrightarrow> \<forall>m \<in> set (Next_loop t stack). m \<noteq> nil"
  by (induction t stack rule: Next_loop.induct) simp_all

lemma rest_pop: "s \<noteq> [] \<Longrightarrow> contrib (last s) @ rest (butlast s) = rest s"
  by (induction s rule: rev_induct) simp_all

lemma elements_state:
  "\<forall>m \<in> set (unprocStack it). m \<noteq> nil \<Longrightarrow>
   elements z it = (if current it = nil then [] else contrib (current it) @ rest (unprocStack it))"
proof (induction z it rule: elements.induct)
  case (1 z it)
  show ?case
  proof (cases "current it")
    case nil
    then show ?thesis by (simp add: HasElem_def elements.simps [of z it])
  next
    case (Node y k l r)
    let ?s = "Next_loop r (unprocStack it)"
    have he: "HasElem it" by (simp add: HasElem_def Node)
    have nn: "\<forall>m \<in> set ?s. m \<noteq> nil"
      using "1.prems" by (rule Next_loop_not_nil)
    show ?thesis
    proof (cases "?s = []")
      case True
      then have "Next it = \<lparr>unprocStack = [], current = nil\<rparr>"
        by (simp add: Next_def Node)
      moreover have "rest ?s = []" using True by simp
      then have "inorder r @ rest (unprocStack it) = []"
        by (simp add: rest_Next_loop)
      ultimately show ?thesis
        using he by (simp add: Node Elem_def HasElem_def elements.simps [of z it]
            elements.simps [of z "\<lparr>unprocStack = [], current = nil\<rparr>"])
    next
      case False
      then have len: "1 \<le> length ?s" by (cases ?s) simp_all
      have nx: "Next it = \<lparr>unprocStack = butlast ?s, current = last ?s\<rparr>"
        using len by (simp add: Next_def Node Let_def)
      have "last ?s \<in> set ?s" using False by simp
      then have ln: "last ?s \<noteq> nil" using nn by blast
      have "\<forall>m \<in> set (unprocStack (Next it)). m \<noteq> nil"
        using nn by (auto simp: nx dest: in_set_butlastD)
      from "1.IH" [OF he this]
      have "elements z (Next it) = contrib (last ?s) @ rest (butlast ?s)"
        using ln by (simp add: nx)
      also have "\<dots> = inorder r @ rest (unprocStack it)"
        using rest_pop [OF False] by (simp add: rest_Next_loop)
      finally show ?thesis
        using he by (simp add: Node Elem_def elements.simps [of z it])
    qed
  qed
qed

lemma Iterator_loop_elements:
  "n \<noteq> nil \<Longrightarrow> \<forall>m \<in> set stack. m \<noteq> nil \<Longrightarrow>
   \<exists>it. Iterator_loop n stack = Some it \<and> HasElem it \<and> elements z it = inorder n @ rest stack"
proof (induction n stack rule: Iterator_loop.induct)
  case (1 stack)
  then show ?case by simp
next
  case (2 y k l r stack)
  show ?case
  proof (cases "l = nil")
    case True
    then show ?thesis
      using "2.prems" by (simp add: elements_state HasElem_def)
  next
    case False
    with "2.IH" "2.prems" show ?thesis by simp
  qed
qed

lemma Iterator_inorder:
  "\<exists>it. Iterator (RedBlackTree cf rt) = Some it \<and> elements z it = inorder rt
     \<and> (HasElem it \<longleftrightarrow> rt \<noteq> nil)"
proof (cases rt)
  case nil
  then show ?thesis
    by (simp add: HasElem_def elements.simps [of z "\<lparr>unprocStack = [], current = nil\<rparr>"])
next
  case (Node y k l r)
  then have "rt \<noteq> nil" by simp
  from Iterator_loop_elements [OF this, of "[]" z] show ?thesis
    by (auto simp: Node)
qed

subsection \<open>Auxiliary facts about the comparator\<close>

lemma upsert_sameDecisions:
  "sameDecisions cf cf' \<Longrightarrow> upsert cf n i = upsert cf' n i"
proof (induction cf n i rule: upsert.induct)
  case (3 cf y kn ln rn x k l r)
  have d0: "(cf x y = 0) = (cf' x y = 0)" and d1: "(cf x y = -1) = (cf' x y = -1)"
    using "3.prems" by (simp_all add: sameDecisions_def)
  show ?case
  proof (cases "cf x y = 0")
    case True
    then have t': "cf' x y = 0" using d0 by simp
    show ?thesis using "3.IH"(1,2) "3.prems" True t'
      by (auto simp: Let_def intro!: Option.bind_cong)
  next
    case False
    then have f': "cf' x y \<noteq> 0" using d0 by simp
    show ?thesis
    proof (cases "cf x y = -1")
      case True
      then have t': "cf' x y = -1" using d1 by simp
      show ?thesis using "3.IH"(3,4) "3.prems" True t' False f'
        by (auto simp: Let_def intro!: Option.bind_cong)
    next
      case F2: False
      then have f2': "cf' x y \<noteq> -1" using d1 by simp
      show ?thesis using "3.IH"(5,6) "3.prems" False f' F2 f2'
        by (auto simp: Let_def intro!: Option.bind_cong)
    qed
  qed
qed simp_all

lemma combinedChildren_sameDecisions:
  "sameDecisions cf cf' \<Longrightarrow> combinedChildren cf n = combinedChildren cf' n"
  by (cases n) (simp_all add: upsert_sameDecisions)

lemma subtract_sameDecisions:
  "sameDecisions cf cf' \<Longrightarrow> subtract cf n i = subtract cf' n i"
proof (induction cf n i rule: subtract.induct)
  case (3 cf y kn ln rn x k l r)
  have d0: "(cf x y = 0) = (cf' x y = 0)" and d1: "(cf x y = -1) = (cf' x y = -1)"
    using "3.prems" by (simp_all add: sameDecisions_def)
  have cc: "combinedChildren cf (Node y kn ln rn) = combinedChildren cf' (Node y kn ln rn)"
    using "3.prems" by (rule combinedChildren_sameDecisions)
  show ?case
  proof (cases "cf x y = 0")
    case True
    then have t': "cf' x y = 0" using d0 by simp
    show ?thesis using "3.IH"(1,2) "3.prems" True t' cc
      by (auto simp: Let_def simp del: combinedChildren.simps intro!: Option.bind_cong)
  next
    case False
    then have f': "cf' x y \<noteq> 0" using d0 by simp
    show ?thesis
    proof (cases "cf x y = -1")
      case True
      then have t': "cf' x y = -1" using d1 by simp
      show ?thesis using "3.IH"(3,4) "3.prems" True t' False f'
        by (auto simp: Let_def intro!: Option.bind_cong)
    next
      case F2: False
      then have f2': "cf' x y \<noteq> -1" using d1 by simp
      show ?thesis using "3.IH"(5,6) "3.prems" False f' F2 f2'
        by (auto simp: Let_def intro!: Option.bind_cong)
    qed
  qed
qed simp_all

lemma intersection_sameDecisions:
  "sameDecisions cf cf' \<Longrightarrow> intersection cf n i = intersection cf' n i"
proof (induction cf n i rule: intersection.induct)
  case (3 cf y kn ln rn x k l r)
  have d0: "(cf x y = 0) = (cf' x y = 0)" and d1: "(cf x y = -1) = (cf' x y = -1)"
    using "3.prems" by (simp_all add: sameDecisions_def)
  show ?case
  proof (cases "cf x y = 0")
    case True
    then have t': "cf' x y = 0" using d0 by simp
    show ?thesis using "3.IH"(1,2) "3.prems" True t'
      by (auto simp: Let_def intro!: Option.bind_cong)
  next
    case False
    then have f': "cf' x y \<noteq> 0" using d0 by simp
    show ?thesis
    proof (cases "cf x y = -1")
      case True
      then have t': "cf' x y = -1" using d1 by simp
      show ?thesis using "3.IH"(3,4,5) "3.prems" True t' False f'
        by (auto simp: Let_def intro!: Option.bind_cong)
    next
      case F2: False
      then have f2': "cf' x y \<noteq> -1" using d1 by simp
      show ?thesis using "3.IH"(6,7,8) "3.prems" False f' F2 f2'
        by (auto simp: Let_def intro!: Option.bind_cong)
    qed
  qed
qed simp_all

lemma sameDecisions_canonical: "sameDecisions cf (canonical cf)"
  by (simp add: sameDecisions_def canonical_def)

text \<open>For a comparator that answers -1 for less, 0 for equal and some other value \<open>g\<close> for
  greater, \<open>canonical\<close> is the comparator of \<^verbatim>\<open>example.go\<close>; when moreover no negative
  result differs from -1, it is the sign of the result.\<close>

lemma canonical_of_order:
  "g \<noteq> 0 \<Longrightarrow> g \<noteq> -1 \<Longrightarrow>
     canonical (\<lambda>a b::int. if a < b then -1 else if a = b then 0 else g) = compare_int"
  by (auto simp: canonical_def compare_int_def fun_eq_iff)

lemma canonical_sgn:
  "\<forall>a b. cf a b < 0 \<longrightarrow> cf a b = -1 \<Longrightarrow> canonical cf = (\<lambda>a b. sgn (cf a b))"
  by (auto simp: canonical_def sgn_if fun_eq_iff)

subsection \<open>The scenarios of the specification\<close>

text \<open>The model run on the literal scenarios 1 to 4 of section 8 of the specification (the
  inputs are those of \<^verbatim>\<open>example.go\<close>) yields the iteration results listed there.\<close>

lemma scenario_delete_absent:
  "do { a \<leftarrow> build compare_int [1, 2, 3, 4, 5, 6, 7]; t \<leftarrow> Delete a 10; iterate 0 t }
     = Some [1, 2, 3, 4, 5, 6, 7]"
  by (simp add: build_def NewRedBlack_def compare_int_def newNode_def iterate_def
      elements.simps HasElem_def Elem_def Next_def)

lemma scenario_union:
  "do { a \<leftarrow> build compare_int [1, 2, 3, 4, 5, 6, 7];
        b \<leftarrow> build compare_int [1, 2, 3, 7, 11, 12, -1, 15];
        t \<leftarrow> Union' a b; iterate 0 t }
     = Some [-1, 1, 2, 3, 4, 5, 6, 7, 11, 12, 15]"
  by (simp add: build_def NewRedBlack_def compare_int_def newNode_def iterate_def
      elements.simps HasElem_def Elem_def Next_def)

lemma scenario_intersection:
  "do { a \<leftarrow> build compare_int [1, 2, 3, 4, 5, 6, 7, 10, 0];
        b \<leftarrow> build compare_int [11, 12, 13, 17, 11, 12, -1, 15, 10, 100, 2, 3];
        t \<leftarrow> Intersection a b; iterate 0 t }
     = Some [2, 3, 10]"
  by (simp add: build_def NewRedBlack_def compare_int_def newNode_def iterate_def
      elements.simps HasElem_def Elem_def Next_def)

lemma scenario_subtract:
  "do { a \<leftarrow> build compare_int [1, 2, 3, 4, 5, 6, 7];
        b \<leftarrow> build compare_int [1, 6, 7, 8, 9, 10, 4];
        t \<leftarrow> Subtract a b; iterate 0 t }
     = Some [2, 3, 5]"
  by (simp add: build_def NewRedBlack_def compare_int_def newNode_def iterate_def
      elements.simps HasElem_def Elem_def Next_def)

subsection \<open>Claims settled by running the operations\<close>

text \<open>C1. The claim: from the empty tree, after every finite sequence of \<^verbatim>\<open>Upsert\<close> and
  \<^verbatim>\<open>Delete\<close>, the tree satisfies the three red-black invariants.
  The code: upserting 1, 2, 3 gives the valid tree with black root 2 and black children
  1 and 3; deleting 1 then removes the left child and repairs nothing, so the path to the
  left of the root holds one black node and the paths through 3 hold two.\<close>

theorem C1_delete_breaks_black_height:
  "apply_operations (NewRedBlack compare_int) [DoUpsert 1, DoUpsert 2, DoUpsert 3]
     = Some (RedBlackTree compare_int (Node 2 black (Node 1 black nil nil) (Node 3 black nil nil)))
   \<and> redBlackInvariants
       (RedBlackTree compare_int (Node 2 black (Node 1 black nil nil) (Node 3 black nil nil)))
   \<and> apply_operations (NewRedBlack compare_int) [DoUpsert 1, DoUpsert 2, DoUpsert 3, DoDelete 1]
     = Some (RedBlackTree compare_int (Node 2 black nil (Node 3 black nil nil)))
   \<and> blackCounts (Node 2 black nil (Node 3 black nil nil)) = [1, 2, 2]
   \<and> \<not> redBlackInvariants (RedBlackTree compare_int (Node 2 black nil (Node 3 black nil nil)))"
  by (simp add: NewRedBlack_def compare_int_def newNode_def redBlackInvariants_def
      sameBlackCount_def strictlyIncreasing_def)

text \<open>C2. The claim: iterating \<^verbatim>\<open>A.Union(B)\<close> yields the strictly sorted sequence of the keys
  of A and B. The code: with A = {5} and B built from 3 then 7, the root of B (3, whose
  right child is 7) is smaller than 5 and the left child of 5 is nil, so the whole of B is
  hung to the left of 5, its right subtree included; the iteration is 3, 7, 5.\<close>

theorem C2_union_not_sorted:
  "do { a \<leftarrow> build compare_int [5]; b \<leftarrow> build compare_int [3, 7]; Union' a b }
     = Some (RedBlackTree compare_int (Node 5 black (Node 3 black nil (Node 7 red nil nil)) nil))
   \<and> iterate 0 (RedBlackTree compare_int (Node 5 black (Node 3 black nil (Node 7 red nil nil)) nil))
     = Some [3, 7, 5]
   \<and> \<not> strictlyIncreasing compare_int [3, 7, 5]"
  by (simp add: build_def NewRedBlack_def compare_int_def newNode_def iterate_def
      elements.simps HasElem_def Elem_def Next_def strictlyIncreasing_def)

text \<open>C3. The claim: \<^verbatim>\<open>A.Subtract(B)\<close> iterates exactly the keys of A that are not in B.
  The code: with A = {5} and B built from 3 then 5, the root of B (3) is smaller than 5 and
  5 has no left child, so \<^verbatim>\<open>subtract\<close> returns A's node at once and never looks at the right
  subtree of B, which holds 5: the result still contains 5. With A = B = {1} the merge
  yields nil and \<^verbatim>\<open>copyWithColor\<close> dereferences it.\<close>

theorem C3_subtract_keeps_common_key:
  "do { a \<leftarrow> build compare_int [5]; b \<leftarrow> build compare_int [3, 5]; Subtract a b }
     = Some (RedBlackTree compare_int (Node 5 black nil nil))
   \<and> iterate 0 (RedBlackTree compare_int (Node 5 black nil nil)) = Some [5]
   \<and> do { a \<leftarrow> build compare_int [1]; b \<leftarrow> build compare_int [1]; Subtract a b } = None"
  by (simp add: build_def NewRedBlack_def compare_int_def newNode_def iterate_def
      elements.simps HasElem_def Elem_def Next_def)

text \<open>C4. The claim: \<^verbatim>\<open>A.Intersection(B)\<close> iterates exactly the keys present in both, and is
  an empty tree when A is empty or nothing is shared.
  The code: for A = {1}, B = {2} the merge yields nil and \<^verbatim>\<open>copyWithColor\<close> dereferences it;
  for an empty A the method returns a nil tree pointer, on which \<^verbatim>\<open>Iterator\<close> panics; and
  for A built from 0, 1, 3, 4 and B built from 0, 2, 4, 3 the common key 3 is lost.\<close>

theorem C4_intersection_fails:
  "do { a \<leftarrow> build compare_int [1]; b \<leftarrow> build compare_int [2]; Intersection a b } = None
   \<and> do { b \<leftarrow> build compare_int [2]; Intersection (NewRedBlack compare_int) b } = Some NilTree
   \<and> Iterator (NilTree :: int RedBlackTree) = None
   \<and> do { a \<leftarrow> build compare_int [0, 1, 3, 4]; b \<leftarrow> build compare_int [0, 2, 4, 3];
          t \<leftarrow> Intersection a b; iterate 0 t } = Some [0, 4]"
  by (simp add: build_def NewRedBlack_def compare_int_def newNode_def iterate_def
      elements.simps HasElem_def Elem_def Next_def)

text \<open>C5. The claim: no operation fails on well-formed input, deleting the only element of a
  one-node tree and intersecting disjoint trees included.
  The code: both end in \<^verbatim>\<open>copyWithColor(black)\<close> called on a nil node.\<close>

theorem C5_delete_only_element_panics:
  "do { a \<leftarrow> build compare_int [1]; Delete a 1 } = None
   \<and> subtract compare_int (Node 1 black nil nil) (newNode 1) = Some nil
   \<and> copyWithColor (nil :: int node) black = None
   \<and> do { a \<leftarrow> build compare_int [1, 2]; b \<leftarrow> build compare_int [3]; Intersection a b } = None"
  by (simp add: build_def NewRedBlack_def compare_int_def newNode_def)

subsection \<open>The iterator\<close>

text \<open>C6 as stated (the sequence of a fresh iterator is strictly increasing for every tree)
  fails on the tree that \<^verbatim>\<open>Union\<close> returns for A = {2} and B built from 1 then 3.\<close>

theorem C6_iteration_not_increasing:
  "do { a \<leftarrow> build compare_int [2]; b \<leftarrow> build compare_int [1, 3]; t \<leftarrow> Union' a b; iterate 0 t }
     = Some [1, 3, 2]
   \<and> \<not> strictlyIncreasing compare_int [1, 3, 2]"
  by (simp add: build_def NewRedBlack_def compare_int_def newNode_def iterate_def
      elements.simps HasElem_def Elem_def Next_def strictlyIncreasing_def)

text \<open>C6, amended. For every tree, \<^verbatim>\<open>Iterator\<close> returns an iterator, and reading \<^verbatim>\<open>Elem\<close> while
  \<^verbatim>\<open>HasElem\<close> holds and calling \<^verbatim>\<open>Next\<close> yields exactly the in-order sequence of the items
  stored in the tree's nodes: it contains exactly the tree's keys, and it is strictly
  increasing under the comparator exactly when the tree's in-order sequence is (that
  is, when the ordering invariant holds of the tree). \<^verbatim>\<open>HasElem\<close> holds of the fresh iterator
  exactly when the tree has a root, so on an empty tree it is false immediately.\<close>

theorem C6_iterator_yields_inorder:
  "\<exists>it. Iterator (RedBlackTree cf rt) = Some it
      \<and> elements zeroVal it = inorder rt
      \<and> set (elements zeroVal it) = set (inorder rt)
      \<and> (strictlyIncreasing cf (elements zeroVal it) \<longleftrightarrow> strictlyIncreasing cf (inorder rt))
      \<and> (HasElem it \<longleftrightarrow> rt \<noteq> nil)
      \<and> (\<exists>it0. Iterator (NewRedBlack cf) = Some it0 \<and> \<not> HasElem it0)"
proof -
  obtain it where it: "Iterator (RedBlackTree cf rt) = Some it"
    "elements zeroVal it = inorder rt" "HasElem it \<longleftrightarrow> rt \<noteq> nil"
    using Iterator_inorder [of cf rt zeroVal] by blast
  have "\<exists>it0. Iterator (NewRedBlack cf) = Some it0 \<and> \<not> HasElem it0"
    by (simp add: NewRedBlack_def HasElem_def)
  with it show ?thesis by simp
qed

text \<open>C10. For an iterator with no current element, \<^verbatim>\<open>Elem\<close> returns the zero value of the
  element type and \<^verbatim>\<open>Next\<close> changes nothing, so there is still no current element.\<close>

theorem C10_exhausted_iterator:
  "\<not> HasElem it \<Longrightarrow> Elem zeroVal it = zeroVal \<and> Next it = it \<and> \<not> HasElem (Next it)"
  by (cases "current it") (simp_all add: HasElem_def Elem_def Next_def)

theorem C10_exhausted_iterator_witness:
  "\<not> HasElem \<lparr>unprocStack = [], current = (nil :: int node)\<rparr>
   \<and> Elem 0 \<lparr>unprocStack = [], current = (nil :: int node)\<rparr> = 0
   \<and> Next \<lparr>unprocStack = [], current = (nil :: int node)\<rparr>
       = \<lparr>unprocStack = [], current = nil\<rparr>"
proof -
  have h: "\<not> HasElem \<lparr>unprocStack = [], current = (nil :: int node)\<rparr>"
    by (simp add: HasElem_def)
  from C10_exhausted_iterator [OF h, of 0] h show ?thesis by simp
qed

subsection \<open>The comparator\<close>

text \<open>C7 as stated (any negative value may stand for ``less'') fails: the comparator that
  returns -2, 0, 2 puts 1 to the right of 2, because \<^verbatim>\<open>upsert\<close> tests \<^verbatim>\<open>cmp == -1\<close>; the
  comparator of \<^verbatim>\<open>example.go\<close>, which is its -1/0/+1 equivalent, puts it to the left.\<close>

theorem C7_negative_other_than_minus_one:
  "do { t \<leftarrow> build (\<lambda>a b. 2 * compare_int a b) [2, 1]; iterate 0 t } = Some [2, 1]
   \<and> do { t \<leftarrow> build (\<lambda>a b. sgn (2 * compare_int a b)) [2, 1]; iterate 0 t } = Some [1, 2]
   \<and> do { t \<leftarrow> build compare_int [2, 1]; iterate 0 t } = Some [1, 2]"
  by (simp add: build_def NewRedBlack_def compare_int_def newNode_def iterate_def
      elements.simps HasElem_def Elem_def Next_def)

text \<open>C7, amended. The merge routines and the five operations built on them compute, with
  any comparator whatever, the same nodes as with the comparator that answers exactly -1
  where the given one answers -1, 0 where it answers 0 and +1 everywhere else. So for every
  comparator that returns exactly -1 for less, zero for equal and any other value (positive
  or not) for greater, they behave as with the equivalent -1/0/+1 comparator.\<close>

theorem C7_comparator_decisions:
  "upsert cf n i = upsert (canonical cf) n i
    \<and> subtract cf n i = subtract (canonical cf) n i
    \<and> intersection cf n i = intersection (canonical cf) n i
    \<and> map_option root (Upsert (RedBlackTree cf n) x)
        = map_option root (Upsert (RedBlackTree (canonical cf) n) x)
    \<and> map_option root (Delete (RedBlackTree cf n) x)
        = map_option root (Delete (RedBlackTree (canonical cf) n) x)
    \<and> map_option root (Union' (RedBlackTree cf n) (RedBlackTree cf i))
        = map_option root (Union' (RedBlackTree (canonical cf) n)
            (RedBlackTree (canonical cf) i))
    \<and> map_option root (Subtract (RedBlackTree cf n) (RedBlackTree cf i))
        = map_option root (Subtract (RedBlackTree (canonical cf) n)
            (RedBlackTree (canonical cf) i))
    \<and> map_option root (Intersection (RedBlackTree cf n) (RedBlackTree cf i))
        = map_option root (Intersection (RedBlackTree (canonical cf) n)
            (RedBlackTree (canonical cf) i))
    \<and> (canonical cf a b = -1 \<longleftrightarrow> cf a b = -1)
    \<and> (canonical cf a b = 0 \<longleftrightarrow> cf a b = 0)
    \<and> (canonical cf a b = 1 \<longleftrightarrow> cf a b \<noteq> -1 \<and> cf a b \<noteq> 0)"
proof -
  let ?cf' = "canonical cf"
  have sd: "sameDecisions cf ?cf'"
    by (rule sameDecisions_canonical)
  have u: "\<And>n i. upsert cf n i = upsert ?cf' n i"
    using sd by (rule upsert_sameDecisions)
  have s: "\<And>n i. subtract cf n i = subtract ?cf' n i"
    using sd by (rule subtract_sameDecisions)
  have j: "\<And>n i. intersection cf n i = intersection ?cf' n i"
    using sd by (rule intersection_sameDecisions)
  have 1: "map_option root (Upsert (RedBlackTree cf n) x)
      = map_option root (Upsert (RedBlackTree ?cf' n) x)"
    by (cases n) (auto simp: u split: Option.bind_split)
  have 2: "map_option root (Delete (RedBlackTree cf n) x)
      = map_option root (Delete (RedBlackTree ?cf' n) x)"
    by (cases n) (auto simp: s split: Option.bind_split)
  have 3: "map_option root (Union' (RedBlackTree cf n) (RedBlackTree cf i))
      = map_option root (Union' (RedBlackTree ?cf' n) (RedBlackTree ?cf' i))"
    by (cases n) (auto simp: u split: Option.bind_split)
  have 4: "map_option root (Subtract (RedBlackTree cf n) (RedBlackTree cf i))
      = map_option root (Subtract (RedBlackTree ?cf' n) (RedBlackTree ?cf' i))"
    by (cases n) (auto simp: s split: Option.bind_split)
  have 5: "map_option root (Intersection (RedBlackTree cf n) (RedBlackTree cf i))
      = map_option root (Intersection (RedBlackTree ?cf' n) (RedBlackTree ?cf' i))"
    by (cases n) (auto simp: j split: Option.bind_split)
  have 6: "(canonical cf a b = -1 \<longleftrightarrow> cf a b = -1)
      \<and> (canonical cf a b = 0 \<longleftrightarrow> cf a b = 0)
      \<and> (canonical cf a b = 1 \<longleftrightarrow> cf a b \<noteq> -1 \<and> cf a b \<noteq> 0)"
    by (simp add: canonical_def)
  from u s j 1 2 3 4 5 6 show ?thesis by blast
qed

text \<open>The amended C7 at the comparator that returns -1 for less, 0 for equal and -2 for
  greater: upserting 3 into the tree of 2 and 1 compares 3 with 2, reads the answer -2 as
  ``greater'' and puts 3 to the right, as the comparator of \<^verbatim>\<open>example.go\<close> does; so do the
  merges of the tree {3} into it and the public operations.\<close>

theorem C7_comparator_decisions_witness:
  "upsert (\<lambda>a b. if a < b then -1 else if a = b then 0 else -2)
       (Node (2::int) black (Node 1 red nil nil) nil) (Node 3 red nil nil)
     = Some (Node 2 black (Node 1 red nil nil) (Node 3 red nil nil))
   \<and> upsert compare_int (Node 2 black (Node 1 red nil nil) nil) (Node 3 red nil nil)
     = Some (Node 2 black (Node 1 red nil nil) (Node 3 red nil nil))
   \<and> map_option root
       (Upsert (RedBlackTree (\<lambda>a b. if a < b then -1 else if a = b then 0 else -2)
          (Node (2::int) black (Node 1 red nil nil) nil)) 3)
     = map_option root (Upsert (RedBlackTree compare_int (Node 2 black (Node 1 red nil nil) nil)) 3)
   \<and> map_option root
       (Subtract (RedBlackTree (\<lambda>a b. if a < b then -1 else if a = b then 0 else -2)
          (Node (2::int) black (Node 1 red nil nil) nil))
          (RedBlackTree (\<lambda>a b. if a < b then -1 else if a = b then 0 else -2)
             (Node 3 red nil nil)))
     = Some (Node 2 black (Node 1 red nil nil) nil)
   \<and> canonical (\<lambda>a b. if a < b then -1 else if a = b then 0 else -2) (3::int) 2 = 1"
proof -
  have c: "canonical (\<lambda>a b::int. if a < b then -1 else if a = b then 0 else -2) = compare_int"
    by (rule canonical_of_order) simp_all
  from C7_comparator_decisions
    [of "\<lambda>a b::int. if a < b then -1 else if a = b then 0 else -2"
      "Node 2 black (Node 1 red nil nil) nil" "Node 3 red nil nil" 3 3 2]
  show ?thesis
    unfolding c by (simp add: compare_int_def newNode_def)
qed

subsection \<open>Termination\<close>

text \<open>The recursion of \<^verbatim>\<open>upsert\<close>, \<^verbatim>\<open>subtract\<close> and \<^verbatim>\<open>intersection\<close> is well-founded on
  every pair of finite trees, valid or not, and so is the loop that drains an iterator:
  every argument lies in the accessible part of the routine's call relation. The recursive
  calls on a truncated copy are covered because \<^verbatim>\<open>balance\<close> never changes the number of
  nodes; the calls on already-modified results because the second tree shrinks. No
  operation runs forever.\<close>

lemma merge_routines_terminate:
  "upsert_dom (cf, n, inserting)
   \<and> subtract_dom (cf, n, subtracting)
   \<and> intersection_dom (cf, n, intersecting)
   \<and> elements_dom (zeroVal, it)
   \<and> size (balance n) = size n"
  by (intro conjI upsert_total [THEN spec] subtract_total [THEN spec]
      intersection_total [THEN spec] elements_total [THEN spec] size_balance)

text \<open>C8. The claim: the merge routines terminate on every pair of finite valid trees, so
  every public operation returns a value. The code: A = {1} and B built from 1 then 2 are
  valid trees; \<^verbatim>\<open>subtract\<close> finds the key 1 at the root of A, replaces that node by its
  joined children, which is nil for a leaf, and calls \<^verbatim>\<open>subtract\<close> on that nil node with the
  right subtree of B. Unlike \<^verbatim>\<open>intersection\<close> and \<^verbatim>\<open>balance\<close>, \<^verbatim>\<open>subtract\<close> does not test its
  receiver and reads \<^verbatim>\<open>n.item\<close>: \<^verbatim>\<open>A.Subtract(B)\<close> stops in a panic and returns nothing.\<close>

theorem C8_operation_returns_no_value:
  "build compare_int [1] = Some (RedBlackTree compare_int (Node 1 black nil nil))
   \<and> build compare_int [1, 2]
     = Some (RedBlackTree compare_int (Node 1 black nil (Node 2 red nil nil)))
   \<and> redBlackInvariants (RedBlackTree compare_int (Node 1 black nil nil))
   \<and> redBlackInvariants (RedBlackTree compare_int (Node 1 black nil (Node 2 red nil nil)))
   \<and> combinedChildren compare_int (Node 1 black nil nil) = Some nil
   \<and> subtract compare_int nil (Node 2 red nil nil) = None
   \<and> subtract compare_int (Node 1 black nil nil) (Node 1 black nil (Node 2 red nil nil)) = None
   \<and> Subtract (RedBlackTree compare_int (Node 1 black nil nil))
       (RedBlackTree compare_int (Node 1 black nil (Node 2 red nil nil))) = None
   \<and> do { a \<leftarrow> build compare_int [1]; b \<leftarrow> build compare_int [1, 2]; Subtract a b } = None"
  by (simp add: build_def NewRedBlack_def compare_int_def newNode_def redBlackInvariants_def
      sameBlackCount_def strictlyIncreasing_def)

subsection \<open>Sharing\<close>

text \<open>The model with addresses computes the nodes of the first model.\<close>

lemma erase_eq_nil [simp]: "erase n = nil \<longleftrightarrow> n = null"
  by (cases n) simp_all

lemma erase_balanceP: "erase (fst (balanceP n h)) = balance (erase n)"
  by (induction n h rule: balanceP.induct) (simp_all add: alloc_def)

lemma erase_balanceP_eq: "balanceP n h = (n', h') \<Longrightarrow> erase n' = balance (erase n)"
  using erase_balanceP [of n h] by simp

lemma balanceP_null: "balanceP n h = (n', h') \<Longrightarrow> n' = null \<longleftrightarrow> n = null"
  using erase_balanceP_eq [of n h n' h'] by (metis balance_eq_Nil erase_eq_nil)

lemma erase_upsertP:
  "n \<noteq> null \<Longrightarrow> \<exists>n' h'. upsertP cf n i h = Some (n', h') \<and> n' \<noteq> null
      \<and> upsert cf (erase n) (erase i) = Some (erase n')"
proof (induction cf n i h rule: upsertP.induct)
  case (3 cf b y kn ln rn a x k l r h)
  let ?n = "At b y kn ln rn" and ?i = "At a x k l r"
  show ?case
  proof (cases "cf x y = 0")
    case True
    obtain n1 h1 where c: "copyWithEntryP ?n x h = Some (n1, h1)"
      and n1: "n1 \<noteq> null" "erase n1 = Node x kn (erase ln) (erase rn)"
      by (simp add: alloc_def)
    from "3.IH"(1) [OF refl True c refl n1(1)]
    obtain n2 h2 where u1: "upsertP cf n1 r h1 = Some (n2, h2)"
      "n2 \<noteq> null" "upsert cf (erase n1) (erase r) = Some (erase n2)"
      by auto
    obtain n3 h3 where b1: "balanceP n2 h2 = (n3, h3)" by force
    have n3: "n3 \<noteq> null" "erase n3 = balance (erase n2)"
      using b1 u1(2) by (simp_all add: balanceP_null erase_balanceP_eq)
    have "Some (balanceP n2 h2) = Some (n3, h3)" using b1 by simp
    from "3.IH"(2) [OF refl True c refl u1(1) refl this refl n3(1)]
    obtain n4 h4 where u2: "upsertP cf n3 l h3 = Some (n4, h4)" "n4 \<noteq> null"
      "upsert cf (erase n3) (erase l) = Some (erase n4)"
      by auto
    obtain n5 h5 where b2: "balanceP n4 h4 = (n5, h5)" by force
    have n5: "n5 \<noteq> null" "erase n5 = balance (erase n4)"
      using b2 u2(2) by (simp_all add: balanceP_null erase_balanceP_eq)
    show ?thesis
      using True c n1 u1 b1 n3 u2 b2 n5 by simp
  next
    case False
    show ?thesis
    proof (cases "cf x y = -1")
      case True
      show ?thesis
      proof (cases "ln = null")
        case lnil: True
        obtain n1 h1 where c: "copyWithLeftP ?n ?i h = Some (n1, h1)"
          and n1: "n1 \<noteq> null" "erase n1 = Node y kn (erase ?i) (erase rn)"
          by (simp add: alloc_def)
        obtain n2 h2 where b1: "balanceP n1 h1 = (n2, h2)" by force
        have "n2 \<noteq> null" "erase n2 = balance (erase n1)"
          using b1 n1(1) by (simp_all add: balanceP_null erase_balanceP_eq)
        then show ?thesis
          using True False lnil c n1 b1 by simp
      next
        case lnn: False
        obtain t h1 where c: "copyWithRightP ?i null h = Some (t, h1)"
          and t: "erase t = Node x k (erase l) nil"
          by (simp add: alloc_def)
        obtain t' h2 where b0: "balanceP t h1 = (t', h2)" by force
        have t': "erase t' = balance (erase t)"
          using b0 by (simp add: erase_balanceP_eq)
        have sb0: "Some (balanceP t h1) = Some (t', h2)" using b0 by simp
        from "3.IH"(3) [OF refl False True lnn c refl sb0 refl lnn]
        obtain l' h3 where u1: "upsertP cf ln t' h2 = Some (l', h3)" "l' \<noteq> null"
          "upsert cf (erase ln) (erase t') = Some (erase l')"
          by auto
        obtain n1 h4 where c2: "copyWithLeftP ?n l' h3 = Some (n1, h4)"
          and n1: "n1 \<noteq> null" "erase n1 = Node y kn (erase l') (erase rn)"
          by (simp add: alloc_def)
        obtain n2 h5 where b1: "balanceP n1 h4 = (n2, h5)" by force
        have n2: "n2 \<noteq> null" "erase n2 = balance (erase n1)"
          using b1 n1(1) by (simp_all add: balanceP_null erase_balanceP_eq)
        have sb1: "Some (balanceP n1 h4) = Some (n2, h5)" using b1 by simp
        from "3.IH"(4) [OF refl False True lnn c refl sb0 refl u1(1) refl c2 refl sb1 refl n2(1)]
        obtain n' h' where u2: "upsertP cf n2 r h5 = Some (n', h')" "n' \<noteq> null"
          "upsert cf (erase n2) (erase r) = Some (erase n')"
          by auto
        show ?thesis
          using True False lnn c t b0 t' u1 c2 n1 b1 n2 u2 by simp
      qed
    next
      case F2: False
      show ?thesis
      proof (cases "rn = null")
        case rnil: True
        obtain n1 h1 where c: "copyWithRightP ?n ?i h = Some (n1, h1)"
          and n1: "n1 \<noteq> null" "erase n1 = Node y kn (erase ln) (erase ?i)"
          by (simp add: alloc_def)
        obtain n2 h2 where b1: "balanceP n1 h1 = (n2, h2)" by force
        have "n2 \<noteq> null" "erase n2 = balance (erase n1)"
          using b1 n1(1) by (simp_all add: balanceP_null erase_balanceP_eq)
        then show ?thesis
          using F2 False rnil c n1 b1 by simp
      next
        case rnn: False
        obtain t h1 where c: "copyWithLeftP ?i null h = Some (t, h1)"
          and t: "erase t = Node x k nil (erase r)"
          by (simp add: alloc_def)
        obtain t' h2 where b0: "balanceP t h1 = (t', h2)" by force
        have t': "erase t' = balance (erase t)"
          using b0 by (simp add: erase_balanceP_eq)
        have sb0: "Some (balanceP t h1) = Some (t', h2)" using b0 by simp
        from "3.IH"(5) [OF refl False F2 rnn c refl sb0 refl rnn]
        obtain r' h3 where u1: "upsertP cf rn t' h2 = Some (r', h3)" "r' \<noteq> null"
          "upsert cf (erase rn) (erase t') = Some (erase r')"
          by auto
        obtain n1 h4 where c2: "copyWithRightP ?n r' h3 = Some (n1, h4)"
          and n1: "n1 \<noteq> null" "erase n1 = Node y kn (erase ln) (erase r')"
          by (simp add: alloc_def)
        obtain n2 h5 where b1: "balanceP n1 h4 = (n2, h5)" by force
        have n2: "n2 \<noteq> null" "erase n2 = balance (erase n1)"
          using b1 n1(1) by (simp_all add: balanceP_null erase_balanceP_eq)
        have sb1: "Some (balanceP n1 h4) = Some (n2, h5)" using b1 by simp
        from "3.IH"(6) [OF refl False F2 rnn c refl sb0 refl u1(1) refl c2 refl sb1 refl n2(1)]
        obtain n' h' where u2: "upsertP cf n2 l h5 = Some (n', h')" "n' \<noteq> null"
          "upsert cf (erase n2) (erase l) = Some (erase n')"
          by auto
        show ?thesis
          using F2 False rnn c t b0 t' u1 c2 n1 b1 n2 u2 by simp
      qed
    qed
  qed
qed simp_all

lemma UpsertP_refines:
  "map_option (\<lambda>(n', h'). erase n') (UpsertP cf rt x h)
     = map_option root (Upsert (RedBlackTree cf (erase rt)) x)"
proof (cases rt)
  case null
  then show ?thesis by (simp add: alloc_def)
next
  case (At b y kn ln rn)
  then have "rt \<noteq> null" by simp
  from erase_upsertP [OF this, of cf "At (length h) x red null null" "h @ [Cell x red None None]"]
  obtain n' h' where u:
    "upsertP cf rt (At (length h) x red null null) (h @ [Cell x red None None]) = Some (n', h')"
    "n' \<noteq> null" "upsert cf (erase rt) (Node x red nil nil) = Some (erase n')"
    by auto
  then show ?thesis
    using At by (cases n') (auto simp: newNodeP_def newNode_def alloc_def)
qed

text \<open>Hence \<^verbatim>\<open>upsert\<close> with a receiver that is not nil never panics, and neither do \<^verbatim>\<open>Upsert\<close>
  and \<^verbatim>\<open>Union\<close> on trees that are not nil pointers.\<close>

lemma erase_label: "\<exists>p. erase p = n"
proof (induction n)
  case nil
  have "erase null = nil" by simp
  then show ?case by blast
next
  case (Node x k l r)
  then obtain pl pr where "erase pl = l" "erase pr = r" by blast
  then have "erase (At 0 x k pl pr) = Node x k l r" by simp
  then show ?case by blast
qed

lemma upsert_returns: "n \<noteq> nil \<Longrightarrow> \<exists>n'. upsert cf n i = Some n' \<and> n' \<noteq> nil"
proof -
  assume n: "n \<noteq> nil"
  obtain p q where p: "erase p = n" and q: "erase q = i"
    using erase_label by metis
  then have "p \<noteq> null" using n by auto
  from erase_upsertP [OF this, of cf q "[]"] p q show ?thesis
    by auto
qed

lemma Upsert_returns: "\<exists>t. Upsert (RedBlackTree cf rt) x = Some t"
proof (cases rt)
  case nil
  then show ?thesis by simp
next
  case (Node y k l r)
  then have "rt \<noteq> nil" by simp
  from upsert_returns [OF this, of cf "newNode x"]
  obtain n' where "upsert cf rt (newNode x) = Some n'" "n' \<noteq> nil" by blast
  then show ?thesis using Node by (cases n') auto
qed

lemma Union_returns: "\<exists>t. Union' (RedBlackTree cf rt) (RedBlackTree cf' rt') = Some t"
proof (cases rt)
  case nil
  then show ?thesis by simp
next
  case (Node y k l r)
  then have "rt \<noteq> nil" by simp
  from upsert_returns [OF this, of cf rt']
  obtain n' where "upsert cf rt rt' = Some n'" "n' \<noteq> nil" by blast
  then show ?thesis using Node by (cases n') auto
qed




lemma prefix_snoc: "prefix s (s @ t)"
  by simp








lemma isRedP_erase [simp]: "isRedNode (erase n) = isRedP n"
  by (cases n) simp_all



















end
